theory Spec2Isabelle
  imports Complex_Main "HOL-Library.Multiset" "HOL-Library.Sublist"
begin

section \<open>JavaScript numbers\<close>

text \<open>
  The health tracker computes with JavaScript numbers. A number is modelled as an exact
  rational, or one of the three special values of IEEE arithmetic. Rounding of doubles
  and the sign of zero are not modelled: every finite operation is exact, and a zero
  divisor is taken as \<open>+0\<close>.

  The code computes in doubles, where each operation rounds its result and a large result
  overflows to an infinity. A value of the model can therefore differ from the code's:
  5800 steps against a goal of 10000 score 14 in doubles (the product is just below 14.5)
  and 15 here. The results below are of kinds that this does not disturb: the value at an
  input where every operation is exact in doubles, the order of two scores (every double
  operation used is monotone), which blocks run, and what they divide by. Nothing is
  claimed about the size of a score at inputs where doubles round or overflow.
\<close>

datatype jsnum = Fin rat | PInf | NInf | NaN

text \<open>Reading a property that may be absent: \<open>undefined\<close> converts to \<open>NaN\<close>.\<close>

fun to_number :: "rat option \<Rightarrow> jsnum" where
  "to_number None = NaN"
| "to_number (Some r) = Fin r"

text \<open>Truthiness of a property holding a number or nothing: \<open>undefined\<close> and \<open>0\<close> are falsy.\<close>

fun truthy :: "rat option \<Rightarrow> bool" where
  "truthy None = False"
| "truthy (Some r) = (r \<noteq> 0)"

fun js_neg :: "jsnum \<Rightarrow> jsnum" where
  "js_neg (Fin a) = Fin (- a)"
| "js_neg PInf = NInf"
| "js_neg NInf = PInf"
| "js_neg NaN = NaN"

fun js_add :: "jsnum \<Rightarrow> jsnum \<Rightarrow> jsnum" where
  "js_add NaN _ = NaN"
| "js_add _ NaN = NaN"
| "js_add (Fin a) (Fin b) = Fin (a + b)"
| "js_add PInf NInf = NaN"
| "js_add NInf PInf = NaN"
| "js_add PInf _ = PInf"
| "js_add _ PInf = PInf"
| "js_add NInf _ = NInf"
| "js_add _ NInf = NInf"

definition js_sub :: "jsnum \<Rightarrow> jsnum \<Rightarrow> jsnum" where
  "js_sub a b = js_add a (js_neg b)"

fun js_mul :: "jsnum \<Rightarrow> jsnum \<Rightarrow> jsnum" where
  "js_mul NaN _ = NaN"
| "js_mul _ NaN = NaN"
| "js_mul (Fin a) (Fin b) = Fin (a * b)"
| "js_mul (Fin a) PInf = (if a = 0 then NaN else if 0 < a then PInf else NInf)"
| "js_mul (Fin a) NInf = (if a = 0 then NaN else if 0 < a then NInf else PInf)"
| "js_mul PInf (Fin b) = (if b = 0 then NaN else if 0 < b then PInf else NInf)"
| "js_mul NInf (Fin b) = (if b = 0 then NaN else if 0 < b then NInf else PInf)"
| "js_mul PInf PInf = PInf"
| "js_mul NInf NInf = PInf"
| "js_mul PInf NInf = NInf"
| "js_mul NInf PInf = NInf"

text \<open>Division never raises in JavaScript: a zero divisor gives an infinity or \<open>NaN\<close>.\<close>

fun js_div :: "jsnum \<Rightarrow> jsnum \<Rightarrow> jsnum" where
  "js_div NaN _ = NaN"
| "js_div _ NaN = NaN"
| "js_div (Fin a) (Fin b) =
     (if b \<noteq> 0 then Fin (a / b) else if a = 0 then NaN else if 0 < a then PInf else NInf)"
| "js_div (Fin a) PInf = Fin 0"
| "js_div (Fin a) NInf = Fin 0"
| "js_div PInf (Fin b) = (if 0 \<le> b then PInf else NInf)"
| "js_div NInf (Fin b) = (if 0 \<le> b then NInf else PInf)"
| "js_div PInf PInf = NaN"
| "js_div PInf NInf = NaN"
| "js_div NInf PInf = NaN"
| "js_div NInf NInf = NaN"

text \<open>The relational operators: every comparison with \<open>NaN\<close> is false.\<close>

fun js_lt :: "jsnum \<Rightarrow> jsnum \<Rightarrow> bool" where
  "js_lt NaN _ = False"
| "js_lt _ NaN = False"
| "js_lt (Fin a) (Fin b) = (a < b)"
| "js_lt _ NInf = False"
| "js_lt NInf _ = True"
| "js_lt PInf _ = False"
| "js_lt (Fin a) PInf = True"

fun js_le :: "jsnum \<Rightarrow> jsnum \<Rightarrow> bool" where
  "js_le NaN _ = False"
| "js_le _ NaN = False"
| "js_le a b = (\<not> js_lt b a)"

definition js_gt :: "jsnum \<Rightarrow> jsnum \<Rightarrow> bool" where
  "js_gt a b = js_lt b a"

definition js_ge :: "jsnum \<Rightarrow> jsnum \<Rightarrow> bool" where
  "js_ge a b = js_le b a"

text \<open>\<open>Math.min\<close>, \<open>Math.max\<close>, \<open>Math.abs\<close> and \<open>Math.round\<close>. The last rounds a
  half towards plus infinity: \<open>Math.round(12.5)\<close> is 13 and \<open>Math.round(-2.5)\<close> is -2.\<close>

fun Math_min :: "jsnum \<Rightarrow> jsnum \<Rightarrow> jsnum" where
  "Math_min NaN _ = NaN"
| "Math_min _ NaN = NaN"
| "Math_min a b = (if js_lt b a then b else a)"

fun Math_max :: "jsnum \<Rightarrow> jsnum \<Rightarrow> jsnum" where
  "Math_max NaN _ = NaN"
| "Math_max _ NaN = NaN"
| "Math_max a b = (if js_lt a b then b else a)"

fun Math_abs :: "jsnum \<Rightarrow> jsnum" where
  "Math_abs (Fin a) = Fin \<bar>a\<bar>"
| "Math_abs PInf = PInf"
| "Math_abs NInf = PInf"
| "Math_abs NaN = NaN"

fun Math_round :: "jsnum \<Rightarrow> jsnum" where
  "Math_round (Fin a) = Fin (of_int \<lfloor>a + 1 / 2\<rfloor>)"
| "Math_round PInf = PInf"
| "Math_round NInf = NInf"
| "Math_round NaN = NaN"

section \<open>The data model\<close>

text \<open>
  An entry is one calendar day's record. Its numeric fields hold JSON numbers, which are
  finite; a field that is \<open>None\<close> is absent from the object (reads \<open>undefined\<close>).
  The field \<open>notes\<close> is named \<open>entry_notes\<close> here.
\<close>

record entry =
  date :: string
  steps :: "rat option"
  heartRate :: "rat option"
  sleep :: "rat option"
  water :: "rat option"
  calories :: "rat option"
  mood :: "string option"
  entry_notes :: "string option"

text \<open>
  A goal is a target number. The heart-rate goal is read by destructuring
  \<open>{min, max}\<close>: it is a range object, either of whose bounds may be missing, or a plain
  number, which has no such properties.
\<close>

datatype hr_goal = HRNumber rat | HRRange "rat option" "rat option"

record goals =
  steps_goal :: "rat option"
  sleep_goal :: "rat option"
  water_goal :: "rat option"
  heartRate_goal :: "hr_goal option"
  calories_goal :: "rat option"

fun hr_truthy :: "hr_goal option \<Rightarrow> bool" where
  "hr_truthy None = False"
| "hr_truthy (Some (HRNumber r)) = (r \<noteq> 0)"
| "hr_truthy (Some (HRRange lo hi)) = True"

fun hr_min :: "hr_goal option \<Rightarrow> rat option" where
  "hr_min (Some (HRRange lo hi)) = lo"
| "hr_min _ = None"

fun hr_max :: "hr_goal option \<Rightarrow> rat option" where
  "hr_max (Some (HRRange lo hi)) = hi"
| "hr_max _ = None"

section \<open>The health score\<close>

text \<open>
  The four proportional blocks of \<open>calculateHealthScore\<close> (steps, sleep, water,
  calories) have one shape,
  \<^verbatim>\<open>if (latest.m !== undefined && goals.m) { score += Math.min((latest.m / goals.m) * cap, cap); }\<close>
  and \<open>add_ratio\<close> is that block.
\<close>

definition add_ratio :: "rat option \<Rightarrow> rat option \<Rightarrow> rat \<Rightarrow> jsnum \<Rightarrow> jsnum" where
  "add_ratio metric goal cap score =
     (if metric \<noteq> None \<and> truthy goal
      then js_add score
             (Math_min (js_mul (js_div (to_number metric) (to_number goal)) (Fin cap)) (Fin cap))
      else score)"

text \<open>The heart-rate block: full marks inside the range, otherwise marks fall with the
  distance from the midpoint of the range, and not below zero.\<close>

definition add_heartRate :: "rat option \<Rightarrow> hr_goal option \<Rightarrow> jsnum \<Rightarrow> jsnum" where
  "add_heartRate metric goal score =
     (if metric \<noteq> None \<and> hr_truthy goal
      then let lo = to_number (hr_min goal); hi = to_number (hr_max goal);
               hr = to_number metric
           in if js_ge hr lo \<and> js_le hr hi
              then js_add score (Fin 15)
              else let deviation = Math_abs (js_sub hr (js_div (js_add lo hi) (Fin 2)))
                   in js_add score (Math_max (js_sub (Fin 15) (js_div deviation (Fin 5))) (Fin 0))
      else score)"

text \<open>The score uses the first entry only. The counter \<open>components\<close> of the source is
  never read and is left out.\<close>

definition calculateHealthScore :: "entry list \<Rightarrow> goals \<Rightarrow> jsnum" where
  "calculateHealthScore entries goals =
     (case entries of
        [] \<Rightarrow> Fin 0
      | latest # _ \<Rightarrow>
          let score = Fin 0;
              score = add_ratio (steps latest) (steps_goal goals) 25 score;
              score = add_ratio (sleep latest) (sleep_goal goals) 25 score;
              score = add_ratio (water latest) (water_goal goals) 20 score;
              score = add_heartRate (heartRate latest) (heartRate_goal goals) score;
              score = add_ratio (calories latest) (calories_goal goals) 15 score
          in Math_round score)"

text \<open>An entry with a date and nothing else, and a goals object with nothing set.\<close>

definition blank :: "string \<Rightarrow> entry" where
  "blank d = \<lparr>date = d, steps = None, heartRate = None, sleep = None, water = None,
              calories = None, mood = None, entry_notes = None\<rparr>"

definition no_goals :: goals where
  "no_goals = \<lparr>steps_goal = None, sleep_goal = None, water_goal = None,
               heartRate_goal = None, calories_goal = None\<rparr>"

text \<open>The two example scenarios of the specification, and a full set of goals.\<close>

definition full_goals :: goals where
  "full_goals = \<lparr>steps_goal = Some 10000, sleep_goal = Some 8, water_goal = Some 8,
     heartRate_goal = Some (HRRange (Some 60) (Some 80)), calories_goal = Some 2200\<rparr>"


definition steps_only_day :: entry where
  "steps_only_day = (blank ''2024-01-04'')\<lparr>steps := Some 5000\<rparr>"

definition steps_sleep_goals :: goals where
  "steps_sleep_goals = no_goals\<lparr>steps_goal := Some 10000, sleep_goal := Some 8\<rparr>"

subsection \<open>Vocabulary for the properties of the score\<close>

text \<open>A value that is absent or not negative.\<close>

fun nonneg :: "rat option \<Rightarrow> bool" where
  "nonneg None = True"
| "nonneg (Some v) = (0 \<le> v)"

text \<open>A heart-rate goal that is unset, falsy, or a range with both bounds given.\<close>

fun numeric_range :: "hr_goal option \<Rightarrow> bool" where
  "numeric_range None = True"
| "numeric_range (Some (HRNumber r)) = (r = 0)"
| "numeric_range (Some (HRRange lo hi)) = (lo \<noteq> None \<and> hi \<noteq> None)"

definition nonneg_goals :: "goals \<Rightarrow> bool" where
  "nonneg_goals g =
     (nonneg (steps_goal g) \<and> nonneg (sleep_goal g) \<and> nonneg (water_goal g)
      \<and> nonneg (calories_goal g) \<and> numeric_range (heartRate_goal g))"

definition nonneg_metrics :: "entry \<Rightarrow> bool" where
  "nonneg_metrics e =
     (nonneg (steps e) \<and> nonneg (sleep e) \<and> nonneg (water e) \<and> nonneg (calories e))"

text \<open>The points of each block as rationals, for inputs on which no \<open>NaN\<close> arises.\<close>

fun ratio_points :: "rat option \<Rightarrow> rat option \<Rightarrow> rat \<Rightarrow> rat" where
  "ratio_points (Some v) (Some g) cap = (if g = 0 then 0 else min (v / g * cap) cap)"
| "ratio_points _ _ cap = 0"

fun heartRate_points :: "rat option \<Rightarrow> hr_goal option \<Rightarrow> rat" where
  "heartRate_points (Some h) (Some (HRRange (Some lo) (Some hi))) =
     (if lo \<le> h \<and> h \<le> hi then 15 else max (15 - \<bar>h - (lo + hi) / 2\<bar> / 5) 0)"
| "heartRate_points _ _ = 0"

definition total_points :: "entry \<Rightarrow> goals \<Rightarrow> rat" where
  "total_points e g =
     ratio_points (steps e) (steps_goal g) 25 + ratio_points (sleep e) (sleep_goal g) 25
     + ratio_points (water e) (water_goal g) 20
     + heartRate_points (heartRate e) (heartRate_goal g)
     + ratio_points (calories e) (calories_goal g) 15"

section \<open>Dates\<close>

text \<open>
  Entries are keyed by ISO date strings \<open>YYYY-MM-DD\<close>. \<open>new Date(s)\<close> of such a string is
  midnight UTC of that day, and its time value is the day number times the milliseconds
  of a day, with the day number given by the formulas of the language standard. Any other
  string is taken to give an invalid date, whose time value is \<open>NaN\<close>. That is what
  every engine does for a string that is no date at all; but engines also accept
  date-time forms, and some roll an impossible day over (30 February as 1 March), which
  the model does not follow. Every result below that compares dates therefore assumes
  that all the dates compared are valid ISO dates, and an example that needs an invalid
  date uses a string that no engine accepts.
\<close>

definition is_digit :: "char \<Rightarrow> bool" where
  "is_digit c = (48 \<le> (of_char c :: nat) \<and> (of_char c :: nat) \<le> 57)"

definition digit :: "char \<Rightarrow> nat" where
  "digit c = of_char c - 48"

fun iso_fields :: "string \<Rightarrow> (nat \<times> nat \<times> nat) option" where
  "iso_fields [y1, y2, y3, y4, s1, m1, m2, s2, d1, d2] =
     (if s1 = CHR ''-'' \<and> s2 = CHR ''-'' \<and> list_all is_digit [y1, y2, y3, y4, m1, m2, d1, d2]
      then Some (1000 * digit y1 + 100 * digit y2 + 10 * digit y3 + digit y4,
                 10 * digit m1 + digit m2, 10 * digit d1 + digit d2)
      else None)"
| "iso_fields _ = None"

definition leap :: "int \<Rightarrow> bool" where
  "leap y = (y mod 4 = 0 \<and> (y mod 100 \<noteq> 0 \<or> y mod 400 = 0))"

definition DaysInYear :: "int \<Rightarrow> int" where
  "DaysInYear y = (if leap y then 366 else 365)"

definition DayFromYear :: "int \<Rightarrow> int" where
  "DayFromYear y =
     365 * (y - 1970) + (y - 1969) div 4 - (y - 1901) div 100 + (y - 1601) div 400"

definition days_in_month :: "int \<Rightarrow> nat \<Rightarrow> nat" where
  "days_in_month y m =
     (if m = 2 then (if leap y then 29 else 28)
      else if m = 4 \<or> m = 6 \<or> m = 9 \<or> m = 11 then 30 else 31)"

text \<open>The number of days of the year before the first of month \<open>m\<close>.\<close>

definition month_start :: "int \<Rightarrow> nat \<Rightarrow> nat" where
  "month_start y m =
     (if m = 1 then 0 else if m = 2 then 31
      else (if leap y then 1 else 0)
         + (if m = 3 then 59 else if m = 4 then 90 else if m = 5 then 120
            else if m = 6 then 151 else if m = 7 then 181 else if m = 8 then 212
            else if m = 9 then 243 else if m = 10 then 273 else if m = 11 then 304
            else 334))"

definition day_number :: "nat \<times> nat \<times> nat \<Rightarrow> int" where
  "day_number ymd =
     (case ymd of (y, m, d) \<Rightarrow> DayFromYear (int y) + int (month_start (int y) m) + int d - 1)"

definition calendar_day :: "nat \<times> nat \<times> nat \<Rightarrow> bool" where
  "calendar_day ymd =
     (case ymd of (y, m, d) \<Rightarrow> 1 \<le> m \<and> m \<le> 12 \<and> 1 \<le> d \<and> d \<le> days_in_month (int y) m)"

text \<open>The time value of \<open>new Date(s)\<close>.\<close>

definition Date_time :: "string \<Rightarrow> jsnum" where
  "Date_time s =
     (case iso_fields s of
        None \<Rightarrow> NaN
      | Some ymd \<Rightarrow> if calendar_day ymd then Fin (of_int (86400000 * day_number ymd)) else NaN)"

definition valid_date :: "string \<Rightarrow> bool" where
  "valid_date s = (Date_time s \<noteq> NaN)"

section \<open>The record store\<close>

text \<open>
  The store keeps one JSON text under its key. A text is modelled by the value it denotes
  together with its layout, or it is malformed: \<open>JSON.parse\<close> of the text of a value gives
  that value back whatever the layout, which is the contract of the platform and is not
  proved here. A parsed value is \<open>null\<close>, a scalar, an array or an object; only objects
  are looked into, as documents. The \<open>entries\<close> of a document is absent, an array of
  entries, or some other value of which only the truthiness matters.
\<close>

datatype entries_field = Absent | NonSequence bool | Sequence "entry list"

record settings =
  theme :: string
  notifications :: bool
  reminderTime :: "string option"

record document =
  user :: "(string \<times> string) list"
  goals :: goals
  settings :: settings
  entries :: entries_field

datatype json = JNull | JScalar | JArray | JObject document

datatype layout = Compact | Indented nat

datatype json_text = Malformed | Text layout json

datatype js_error = SyntaxError | TypeError | Error string

fun JSON_parse :: "json_text \<Rightarrow> js_error + json" where
  "JSON_parse Malformed = Inl SyntaxError"
| "JSON_parse (Text l v) = Inr v"

definition JSON_stringify :: "layout \<Rightarrow> json \<Rightarrow> json_text" where
  "JSON_stringify l v = Text l v"

text \<open>What \<open>localStorage.getItem(STORAGE_KEY)\<close> returns: \<open>null\<close> or a text. The empty
  string counts as malformed: \<open>getAll\<close> reads it as \<open>null\<close> like any text that fails to
  parse.\<close>

type_synonym storage = "json_text option"

definition getAll :: "storage \<Rightarrow> json" where
  "getAll st =
     (case st of
        None \<Rightarrow> JNull
      | Some text \<Rightarrow> (case JSON_parse text of Inl error \<Rightarrow> JNull | Inr data \<Rightarrow> data))"

text \<open>\<open>localStorage.setItem\<close> can throw (quota, private browsing); \<open>saveAll\<close> catches that
  and returns \<open>false\<close>. Whether the write goes through is the environment's choice, the
  flag \<open>writable\<close>.\<close>

definition saveAll :: "bool \<Rightarrow> json \<Rightarrow> storage \<Rightarrow> storage \<times> bool" where
  "saveAll writable data st =
     (if writable then (Some (JSON_stringify Compact data), True) else (st, False))"

text \<open>The property read \<open>data.entries\<close>: a \<open>TypeError\<close> on \<open>null\<close>, \<open>undefined\<close> on a
  scalar, and on an array the method \<open>Array.prototype.entries\<close>, which is truthy and not
  an array.\<close>

fun get_entries_prop :: "json \<Rightarrow> js_error + entries_field" where
  "get_entries_prop JNull = Inl TypeError"
| "get_entries_prop JScalar = Inr Absent"
| "get_entries_prop JArray = Inr (NonSequence True)"
| "get_entries_prop (JObject d) = Inr (entries d)"

text \<open>The operand \<open>v || []\<close>.\<close>

fun or_empty :: "entries_field \<Rightarrow> entries_field" where
  "or_empty Absent = Sequence []"
| "or_empty (NonSequence truth) = (if truth then NonSequence truth else Sequence [])"
| "or_empty (Sequence es) = Sequence es"

text \<open>\<open>data?.entries || []\<close>\<close>

definition getEntries :: "storage \<Rightarrow> entries_field" where
  "getEntries st =
     (case get_entries_prop (getAll st) of
        Inl error \<Rightarrow> Sequence []
      | Inr v \<Rightarrow> or_empty v)"

text \<open>Calling an array method on the value: a \<open>TypeError\<close> unless it is an array.\<close>

fun as_array :: "entries_field \<Rightarrow> js_error + entry list" where
  "as_array (Sequence es) = Inr es"
| "as_array _ = Inl TypeError"


fun findIndex :: "('a \<Rightarrow> bool) \<Rightarrow> 'a list \<Rightarrow> nat option" where
  "findIndex P [] = None"
| "findIndex P (x # xs) = (if P x then Some 0 else map_option Suc (findIndex P xs))"

text \<open>The object spread \<open>{ ...old, ...new }\<close> on entries: a field of the new entry wins
  where it is present.\<close>

definition override :: "'a option \<Rightarrow> 'a option \<Rightarrow> 'a option" where
  "override old new = (case new of None \<Rightarrow> old | Some v \<Rightarrow> Some v)"

definition spread :: "entry \<Rightarrow> entry \<Rightarrow> entry" where
  "spread old new =
     \<lparr>date = date new,
      steps = override (steps old) (steps new),
      heartRate = override (heartRate old) (heartRate new),
      sleep = override (sleep old) (sleep new),
      water = override (water old) (water new),
      calories = override (calories old) (calories new),
      mood = override (mood old) (mood new),
      entry_notes = override (entry_notes old) (entry_notes new)\<rparr>"

text \<open>
  \<open>Array.prototype.sort\<close> is stable; it is modelled as insertion sort, where an element
  moves behind its right neighbour only while the comparator is positive. When the
  comparator is a consistent ordering every stable sort gives this result; when it is not
  (it returns \<open>NaN\<close> on an invalid date) the standard leaves the order to the engine.
\<close>

fun insert_by :: "('a \<Rightarrow> 'a \<Rightarrow> jsnum) \<Rightarrow> 'a \<Rightarrow> 'a list \<Rightarrow> 'a list" where
  "insert_by cmp x [] = [x]"
| "insert_by cmp x (y # ys) =
     (if js_gt (cmp x y) (Fin 0) then y # insert_by cmp x ys else x # y # ys)"

definition Array_sort :: "('a \<Rightarrow> 'a \<Rightarrow> jsnum) \<Rightarrow> 'a list \<Rightarrow> 'a list" where
  "Array_sort cmp xs = foldr (insert_by cmp) xs []"

text \<open>The comparator of \<open>saveEntry\<close>: \<open>(a, b) => new Date(b.date) - new Date(a.date)\<close>\<close>

definition newest_first :: "entry \<Rightarrow> entry \<Rightarrow> jsnum" where
  "newest_first a b = js_sub (Date_time (date b)) (Date_time (date a))"

text \<open>The assignment \<open>data.entries = v\<close>: it changes an object, and is ignored on a
  scalar (the script is not in strict mode).\<close>

fun set_entries_prop :: "entries_field \<Rightarrow> json \<Rightarrow> json" where
  "set_entries_prop v (JObject d) = JObject (d\<lparr>entries := v\<rparr>)"
| "set_entries_prop v data = data"

definition saveEntry :: "bool \<Rightarrow> entry \<Rightarrow> storage \<Rightarrow> js_error + storage \<times> bool" where
  "saveEntry writable entry st =
     (let data = getAll st in
      case get_entries_prop data of
        Inl error \<Rightarrow> Inl error
      | Inr v \<Rightarrow>
          (case as_array (or_empty v) of
             Inl error \<Rightarrow> Inl error
           | Inr es \<Rightarrow>
               let es = (case findIndex (\<lambda>e. date e = date entry) es of
                           Some index \<Rightarrow> es[index := spread (es ! index) entry]
                         | None \<Rightarrow> es @ [entry]);
                   es = Array_sort newest_first es
               in Inr (saveAll writable (set_entries_prop (Sequence es) data) st)))"

definition deleteEntry :: "bool \<Rightarrow> string \<Rightarrow> storage \<Rightarrow> js_error + storage \<times> bool" where
  "deleteEntry writable d st =
     (let data = getAll st in
      case get_entries_prop data of
        Inl error \<Rightarrow> Inl error
      | Inr v \<Rightarrow>
          (case as_array v of
             Inl error \<Rightarrow> Inl error
           | Inr es \<Rightarrow>
               Inr (saveAll writable
                      (set_entries_prop (Sequence (filter (\<lambda>entry. date entry \<noteq> d) es)) data) st)))"


definition exportJSON :: "storage \<Rightarrow> json_text" where
  "exportJSON st = JSON_stringify (Indented 2) (getAll st)"

text \<open>The result object \<open>{ success, message }\<close>. The message of an error the engine
  raises is the engine's own text and is kept as the error.\<close>

datatype message_text = Literal string | EngineMessage js_error

fun error_message :: "js_error \<Rightarrow> message_text" where
  "error_message (Error text) = Literal text"
| "error_message e = EngineMessage e"

record import_result =
  success :: bool
  message :: message_text

definition failed :: "js_error \<Rightarrow> import_result" where
  "failed e = \<lparr>success = False, message = error_message e\<rparr>"

fun is_truthy :: "entries_field \<Rightarrow> bool" where
  "is_truthy Absent = False"
| "is_truthy (NonSequence truth) = truth"
| "is_truthy (Sequence es) = True"

fun isArray :: "entries_field \<Rightarrow> bool" where
  "isArray (Sequence es) = True"
| "isArray _ = False"

text \<open>The result of \<open>saveAll\<close> is dropped by \<open>importJSON\<close>.\<close>

definition importJSON :: "bool \<Rightarrow> json_text \<Rightarrow> storage \<Rightarrow> storage \<times> import_result" where
  "importJSON writable jsonString st =
     (case JSON_parse jsonString of
        Inl error \<Rightarrow> (st, failed error)
      | Inr data \<Rightarrow>
          (case get_entries_prop data of
             Inl error \<Rightarrow> (st, failed error)
           | Inr v \<Rightarrow>
               if \<not> is_truthy v \<or> \<not> isArray v
               then (st, failed (Error ''Invalid data format''))
               else (fst (saveAll writable data st),
                     \<lparr>success = True, message = Literal ''Data imported successfully''\<rparr>)))"

section \<open>Health flags\<close>

text \<open>A flag is the object \<open>{ type, message, metric }\<close>.\<close>

datatype flag_type = Warning | Danger

datatype flag = Flag flag_type string string

definition sleep_flag :: flag where
  "sleep_flag = Flag Danger ''Insufficient sleep detected (<6 hours)'' ''sleep''"

definition heartRate_flag :: flag where
  "heartRate_flag = Flag Warning ''Elevated resting heart rate (>100 bpm)'' ''heartRate''"

definition water_flag :: flag where
  "water_flag = Flag Warning ''Low water intake (<3 glasses)'' ''water''"

definition steps_flag :: flag where
  "steps_flag = Flag Warning ''Very low activity level (<2000 steps)'' ''steps''"

definition chronic_flag :: flag where
  "chronic_flag = Flag Danger ''Chronic sleep deprivation detected (3+ days)'' ''sleep''"

text \<open>\<open>if (c) { flags.push(x); }\<close>\<close>

definition push_if :: "bool \<Rightarrow> 'a \<Rightarrow> 'a list \<Rightarrow> 'a list" where
  "push_if c x flags = (if c then flags @ [x] else flags)"

text \<open>\<open>e.sleep || 0\<close>: a missing value counts as 0.\<close>

fun or_zero :: "rat option \<Rightarrow> jsnum" where
  "or_zero None = Fin 0"
| "or_zero (Some v) = (if v = 0 then Fin 0 else Fin v)"

text \<open>The parameter \<open>goals\<close> is not used by the source.\<close>

definition detectHealthFlags :: "entry list \<Rightarrow> goals \<Rightarrow> flag list" where
  "detectHealthFlags es gs =
     (case es of
        [] \<Rightarrow> []
      | latest # _ \<Rightarrow>
          let flags = [];
              flags = push_if (js_lt (to_number (sleep latest)) (Fin 6)) sleep_flag flags;
              flags = push_if (js_gt (to_number (heartRate latest)) (Fin 100)) heartRate_flag flags;
              flags = push_if (js_lt (to_number (water latest)) (Fin 3)) water_flag flags;
              flags = push_if (js_lt (to_number (steps latest)) (Fin 2000)) steps_flag flags;
              flags =
                (if 3 \<le> length es
                 then let recentSleep = map (\<lambda>e. or_zero (sleep e)) (take 3 es)
                      in push_if (list_all (\<lambda>s. js_lt s (Fin 6)) recentSleep) chronic_flag flags
                 else flags)
          in flags)"

section \<open>Vocabulary for the properties of the store\<close>

text \<open>Entries in strictly descending order of their dates; every pair in the list is
  compared, so all dates of a list of two or more are valid, and no date occurs twice.\<close>

definition newer :: "entry \<Rightarrow> entry \<Rightarrow> bool" where
  "newer a b = js_lt (Date_time (date b)) (Date_time (date a))"

definition strictly_descending :: "entry list \<Rightarrow> bool" where
  "strictly_descending es = sorted_wrt newer es"

definition valid_dates :: "entry list \<Rightarrow> bool" where
  "valid_dates es = list_all (\<lambda>e. valid_date (date e)) es"


text \<open>A payload that parses to an object whose \<open>entries\<close> is an array.\<close>

fun has_entries_sequence :: "json_text \<Rightarrow> bool" where
  "has_entries_sequence (Text l (JObject d)) = isArray (entries d)"
| "has_entries_sequence _ = False"

text \<open>A small document for the examples.\<close>

definition sample_document :: "entry list \<Rightarrow> document" where
  "sample_document es =
     \<lparr>user = [], goals = full_goals,
      settings = \<lparr>theme = ''light'', notifications = True, reminderTime = None\<rparr>,
      entries = Sequence es\<rparr>"

definition stored :: "document \<Rightarrow> storage" where
  "stored d = Some (JSON_stringify Compact (JObject d))"

text \<open>The list that \<open>saveEntry\<close> sorts: the saved entry merged into the first entry of
  its date, or pushed at the end.\<close>

definition placed :: "entry \<Rightarrow> entry list \<Rightarrow> entry list" where
  "placed entry es =
     (case findIndex (\<lambda>e. date e = date entry) es of
        Some index \<Rightarrow> es[index := spread (es ! index) entry]
      | None \<Rightarrow> es @ [entry])"

text \<open>Three days, a store holding them newest first, and an entry to save.\<close>

definition day1 :: entry where
  "day1 = (blank ''2024-01-01'')\<lparr>sleep := Some 4, steps := Some 3000\<rparr>"

definition day2 :: entry where
  "day2 = (blank ''2024-01-02'')\<lparr>sleep := Some 5, water := Some 6\<rparr>"

definition day3 :: entry where
  "day3 = (blank ''2024-01-03'')\<lparr>sleep := Some 5, heartRate := Some 60, water := Some 4,
     steps := Some 5000\<rparr>"

definition sample_store :: storage where
  "sample_store = stored (sample_document [day3, day2, day1])"


section \<open>The score under other readings of the source\<close>






section \<open>Properties of the health score\<close>

lemma add_ratio_Fin: "add_ratio m g cap (Fin s) = Fin (s + ratio_points m g cap)"
  by (cases m; cases g) (auto simp: add_ratio_def min_def)

lemma add_heartRate_Fin:
  "numeric_range g \<Longrightarrow> add_heartRate m g (Fin s) = Fin (s + heartRate_points m g)"
  by (cases m; cases g rule: numeric_range.cases)
     (auto simp: add_heartRate_def js_ge_def js_sub_def Let_def max_def)

lemma score_Fin:
  "numeric_range (heartRate_goal g) \<Longrightarrow>
   calculateHealthScore (e # es) g = Fin (of_int \<lfloor>total_points e g + 1 / 2\<rfloor>)"
  by (simp add: calculateHealthScore_def add_ratio_Fin add_heartRate_Fin total_points_def Let_def)

lemma ratio_points_bounds:
  "nonneg m \<Longrightarrow> nonneg g \<Longrightarrow> 0 \<le> cap \<Longrightarrow>
   0 \<le> ratio_points m g cap \<and> ratio_points m g cap \<le> cap"
  by (cases m; cases g) (auto simp: min_def)

lemma heartRate_points_bounds: "0 \<le> heartRate_points m g \<and> heartRate_points m g \<le> 15"
  by (induction m g rule: heartRate_points.induct) (auto simp: max_def)






text \<open>On inputs that are not negative, with a heart-rate goal that is a range with both
  bounds, the score of the model is an integer between 0 and 100.\<close>

lemma nonneg_score_in_range:
  assumes "\<forall>latest \<in> set (take 1 es). nonneg_metrics latest" and "nonneg_goals g"
  shows "\<exists>n::int. calculateHealthScore es g = Fin (of_int n) \<and> 0 \<le> n \<and> n \<le> 100"
proof (cases es)
  case Nil
  then have "calculateHealthScore es g = Fin (of_int 0)"
    by (simp add: calculateHealthScore_def)
  then show ?thesis by (intro exI [of _ 0]) simp
next
  case (Cons latest rest)
  with assms(1) have m: "nonneg_metrics latest" by simp
  let ?t = "total_points latest g"
  from m assms(2)
  have a: "0 \<le> ratio_points (steps latest) (steps_goal g) 25
           \<and> ratio_points (steps latest) (steps_goal g) 25 \<le> 25"
    by (intro ratio_points_bounds) (simp_all add: nonneg_metrics_def nonneg_goals_def)
  from m assms(2)
  have b: "0 \<le> ratio_points (sleep latest) (sleep_goal g) 25
           \<and> ratio_points (sleep latest) (sleep_goal g) 25 \<le> 25"
    by (intro ratio_points_bounds) (simp_all add: nonneg_metrics_def nonneg_goals_def)
  from m assms(2)
  have c: "0 \<le> ratio_points (water latest) (water_goal g) 20
           \<and> ratio_points (water latest) (water_goal g) 20 \<le> 20"
    by (intro ratio_points_bounds) (simp_all add: nonneg_metrics_def nonneg_goals_def)
  from m assms(2)
  have d: "0 \<le> ratio_points (calories latest) (calories_goal g) 15
           \<and> ratio_points (calories latest) (calories_goal g) 15 \<le> 15"
    by (intro ratio_points_bounds) (simp_all add: nonneg_metrics_def nonneg_goals_def)
  note e = heartRate_points_bounds [of "heartRate latest" "heartRate_goal g"]
  from a b c d e have t: "0 \<le> ?t \<and> ?t \<le> 100" by (simp add: total_points_def)
  then have "0 \<le> \<lfloor>?t + 1 / 2\<rfloor>" by simp
  moreover from t have "\<lfloor>?t + 1 / 2\<rfloor> \<le> 100" by (simp add: floor_le_iff)
  moreover from assms(2) Cons
  have "calculateHealthScore es g = Fin (of_int \<lfloor>?t + 1 / 2\<rfloor>)"
    by (simp add: score_Fin nonneg_goals_def)
  ultimately show ?thesis by blast
qed

text \<open>
  Claim C1: for every entry list and goals map the score is an integer between 0 and 100,
  the sum of five capped blocks, rounded. The source says the same of itself (the function
  is documented as a score from 0 to 100 and each block as a score from 0 to its cap), and
  the heart-rate block clamps its points from below with \<open>Math.max\<close>. The proportional
  blocks do not: a latest entry with \<open>steps = -1000\<close> against a goal of 10000 adds
  \<open>-2.5\<close>, and \<open>Math.round\<close> returns \<open>-2\<close>. And a heart-rate goal that is a plain number
  has no \<open>min\<close> or \<open>max\<close>: neither comparison holds, the midpoint is \<open>NaN\<close>, and so is
  the score. In doubles both computations give these same values.
\<close>

theorem score_outside_range:
  "calculateHealthScore [(blank ''2024-01-05'')\<lparr>steps := Some (- 1000)\<rparr>]
     (no_goals\<lparr>steps_goal := Some 10000\<rparr>) = Fin (- 2)
   \<and> calculateHealthScore [(blank ''2024-01-05'')\<lparr>heartRate := Some 70\<rparr>]
     (no_goals\<lparr>heartRate_goal := Some (HRNumber 70)\<rparr>) = NaN"
  by (simp add: calculateHealthScore_def add_ratio_def add_heartRate_def blank_def no_goals_def
      js_ge_def js_sub_def)





text \<open>
  Claim C3 as stated gives the score 12 for the entry with 5000 steps and nothing else,
  against the goals steps 10000 and sleep 8. The code does not return 12.
\<close>

theorem steps_only_scenario_counterexample:
  "calculateHealthScore [steps_only_day] steps_sleep_goals \<noteq> Fin 12"
  by (simp add: calculateHealthScore_def add_ratio_def add_heartRate_def blank_def no_goals_def
      steps_only_day_def steps_sleep_goals_def)

text \<open>
  Claim C3, as amended: in that scenario the steps block contributes 12.5, the sleep block
  adds nothing because the entry has no sleep field, and the score is
  \<open>Math.round(12.5) = 13\<close>.
\<close>

theorem steps_only_scenario:
  "calculateHealthScore [steps_only_day] steps_sleep_goals = Fin 13
   \<and> add_ratio (steps steps_only_day) (steps_goal steps_sleep_goals) 25 (Fin 0) = Fin (25 / 2)
   \<and> add_ratio (sleep steps_only_day) (sleep_goal steps_sleep_goals) 25 (Fin (25 / 2)) = Fin (25 / 2)
   \<and> calculateHealthScore [steps_only_day] steps_sleep_goals = Math_round (Fin (25 / 2))"
  by (simp add: calculateHealthScore_def add_ratio_def add_heartRate_def blank_def no_goals_def
      steps_only_day_def steps_sleep_goals_def)

subsection \<open>Falsy goals\<close>




lemma score_reads_first: "calculateHealthScore (e # es) g = calculateHealthScore [e] g"
  by (simp add: calculateHealthScore_def)




section \<open>Properties of dates\<close>

text \<open>The day number grows by the length of the year from one first of January to the
  next, so valid calendar days have distinct day numbers, and distinct valid date
  strings have distinct time values.\<close>


lemma div_step:
  fixes k x :: int
  assumes "0 < k"
  shows "(x + 1) div k = x div k + (if (x + 1) mod k = 0 then 1 else 0)"
proof -
  have r: "0 \<le> x mod k" "x mod k < k" using assms by simp_all
  note x = mult_div_mod_eq [of k x]
  show ?thesis
  proof (cases "x mod k = k - 1")
    case True
    have "k * (x div k + 1) = k * (x div k) + k" by (simp add: distrib_left)
    with x True have e: "x + 1 = k * (x div k + 1)" by linarith
    from assms have "(k * (x div k + 1)) div k = x div k + 1" by simp
    moreover have "(k * (x div k + 1)) mod k = 0" by simp
    ultimately show ?thesis unfolding e by simp
  next
    case False
    with r have lt: "x mod k + 1 < k" by simp
    from x have e: "x + 1 = k * (x div k) + (x mod k + 1)" by linarith
    from r(1) lt have "(k * (x div k) + (x mod k + 1)) div k = x div k"
      by (intro int_div_pos_eq [OF refl]) simp_all
    moreover from r(1) lt have "(k * (x div k) + (x mod k + 1)) mod k = x mod k + 1"
      by (intro int_mod_pos_eq [OF refl]) simp_all
    ultimately have "(x + 1) div k = x div k" "(x + 1) mod k = x mod k + 1"
      by (simp_all only: e)
    with r(1) show ?thesis by simp
  qed
qed

lemma mod_shift: "(y - k * c) mod k = y mod (k::int)"
proof -
  have "y - k * c = y + k * (- c)" by simp
  then show ?thesis by (simp only: mod_mult_self2)
qed

lemma dvd_mod0: "(a::int) dvd b \<Longrightarrow> y mod b = 0 \<Longrightarrow> y mod a = 0"
  by (meson dvd_trans mod_eq_0_iff_dvd)

lemma DayFromYear_step: "DayFromYear (y + 1) = DayFromYear y + DaysInYear y"
proof -
  define i4 :: int where "i4 = (if y mod 4 = 0 then 1 else 0)"
  define i100 :: int where "i100 = (if y mod 100 = 0 then 1 else 0)"
  define i400 :: int where "i400 = (if y mod 400 = 0 then 1 else 0)"
  have "(y - 1969 + 1) div 4 = (y - 1969) div 4 + (if (y - 1969 + 1) mod 4 = 0 then 1 else 0)"
    by (rule div_step) simp
  moreover have "y - 1969 + 1 = y - 4 * 492" by simp
  ultimately have a: "(y - 4 * 492) div 4 = (y - 1969) div 4 + i4"
    by (simp only: mod_shift i4_def)
  have "(y - 1901 + 1) div 100 = (y - 1901) div 100 + (if (y - 1901 + 1) mod 100 = 0 then 1 else 0)"
    by (rule div_step) simp
  moreover have "y - 1901 + 1 = y - 100 * 19" by simp
  ultimately have b: "(y - 100 * 19) div 100 = (y - 1901) div 100 + i100"
    by (simp only: mod_shift i100_def)
  have "(y - 1601 + 1) div 400 = (y - 1601) div 400 + (if (y - 1601 + 1) mod 400 = 0 then 1 else 0)"
    by (rule div_step) simp
  moreover have "y - 1601 + 1 = y - 400 * 4" by simp
  ultimately have c: "(y - 400 * 4) div 400 = (y - 1601) div 400 + i400"
    by (simp only: mod_shift i400_def)
  have d: "y mod 400 = 0 \<Longrightarrow> y mod 100 = 0" "y mod 100 = 0 \<Longrightarrow> y mod 4 = 0"
    by (rule dvd_mod0 [of 100 400], simp, assumption, rule dvd_mod0 [of 4 100], simp, assumption)
  have e: "y + 1 - 1969 = y - 4 * 492" "y + 1 - 1901 = y - 100 * 19" "y + 1 - 1601 = y - 400 * 4"
    by simp_all
  have "DayFromYear (y + 1) = 365 * (y + 1 - 1970) + ((y - 1969) div 4 + i4)
          - ((y - 1901) div 100 + i100) + ((y - 1601) div 400 + i400)"
    unfolding DayFromYear_def e a b c ..
  also have "\<dots> = DayFromYear y + (365 + i4 - i100 + i400)"
    unfolding DayFromYear_def by (simp add: algebra_simps)
  also have "365 + i4 - i100 + i400 = DaysInYear y"
  proof (cases "y mod 4 = 0")
    case False
    from False d(2) have n100: "y mod 100 \<noteq> 0" by (rule contrapos_nn)
    from n100 d(1) have "y mod 400 \<noteq> 0" by (rule contrapos_nn)
    with False n100 show ?thesis by (simp only: i4_def i100_def i400_def DaysInYear_def leap_def) simp
  next
    case 4: True
    show ?thesis
    proof (cases "y mod 100 = 0")
      case False
      from False d(1) have "y mod 400 \<noteq> 0" by (rule contrapos_nn)
      with 4 False show ?thesis by (simp only: i4_def i100_def i400_def DaysInYear_def leap_def) simp
    next
      case True
      with 4 show ?thesis
        by (cases "y mod 400 = 0"; simp only: i4_def i100_def i400_def DaysInYear_def leap_def) simp_all
    qed
  qed
  finally show ?thesis .
qed

lemma DaysInYear_pos: "365 \<le> DaysInYear y" "DaysInYear y \<le> 366"
  by (simp_all add: DaysInYear_def)

lemma DayFromYear_later:
  assumes "y < y'"
  shows "DayFromYear y + DaysInYear y \<le> DayFromYear y'"
proof -
  have "DayFromYear y + DaysInYear y \<le> DayFromYear (y + 1 + int n)" for n
  proof (induction n)
    case 0
    show ?case by (simp add: DayFromYear_step)
  next
    case (Suc n)
    have "DayFromYear (y + 1 + int (Suc n)) = DayFromYear (y + 1 + int n) + DaysInYear (y + 1 + int n)"
      using DayFromYear_step [of "y + 1 + int n"] by (simp add: algebra_simps)
    with Suc DaysInYear_pos(1) [of "y + 1 + int n"] show ?case by linarith
  qed
  from this [of "nat (y' - y - 1)"] assms show ?thesis by simp
qed

lemma month_start_next:
  "1 \<le> m \<Longrightarrow> m < 12 \<Longrightarrow> month_start y (Suc m) = month_start y m + days_in_month y m"
proof -
  assume "1 \<le> m" "m < 12"
  then have "m = 1 \<or> m = 2 \<or> m = 3 \<or> m = 4 \<or> m = 5 \<or> m = 6 \<or> m = 7 \<or> m = 8 \<or> m = 9 \<or> m = 10 \<or> m = 11"
    by arith
  then show ?thesis
    by (elim disjE) (simp_all add: month_start_def days_in_month_def)
qed

lemma month_end_in_year:
  "1 \<le> m \<Longrightarrow> m \<le> 12 \<Longrightarrow> int (month_start y m + days_in_month y m) \<le> DaysInYear y"
proof -
  assume "1 \<le> m" "m \<le> 12"
  then have "m = 1 \<or> m = 2 \<or> m = 3 \<or> m = 4 \<or> m = 5 \<or> m = 6 \<or> m = 7 \<or> m = 8 \<or> m = 9 \<or> m = 10 \<or> m = 11 \<or> m = 12"
    by arith
  then show ?thesis
    by (elim disjE) (simp_all add: month_start_def days_in_month_def DaysInYear_def)
qed

lemma month_start_later:
  assumes "1 \<le> m" "m < m'" "m' \<le> 12"
  shows "month_start y m + days_in_month y m \<le> month_start y m'"
proof -
  have "m + n < 12 \<Longrightarrow> month_start y m + days_in_month y m \<le> month_start y (Suc (m + n))" for n
  proof (induction n)
    case 0
    with assms(1) show ?case by (simp add: month_start_next)
  next
    case (Suc n)
    then have "month_start y (Suc (m + Suc n)) = month_start y (Suc (m + n)) + days_in_month y (Suc (m + n))"
      using month_start_next [of "Suc (m + n)" y] by simp
    with Suc show ?case by simp
  qed
  from this [of "m' - m - 1"] assms show ?thesis by simp
qed

lemma day_number_inj:
  assumes "calendar_day a" "calendar_day b" "day_number a = day_number b"
  shows "a = b"
proof -
  obtain y m d where a: "a = (y, m, d)" by (cases a)
  obtain y' m' d' where b: "b = (y', m', d')" by (cases b)
  from assms(1) a have va: "1 \<le> m" "m \<le> 12" "1 \<le> d" "d \<le> days_in_month (int y) m"
    by (simp_all add: calendar_day_def)
  from assms(2) b have vb: "1 \<le> m'" "m' \<le> 12" "1 \<le> d'" "d' \<le> days_in_month (int y') m'"
    by (simp_all add: calendar_day_def)
  from assms(3) a b
  have eq: "DayFromYear (int y) + int (month_start (int y) m) + int d
          = DayFromYear (int y') + int (month_start (int y') m') + int d'"
    by (simp add: day_number_def)
  from va month_end_in_year [of m "int y"]
  have ia: "int (month_start (int y) m) + int d \<le> DaysInYear (int y)" by simp
  from vb month_end_in_year [of m' "int y'"]
  have ib: "int (month_start (int y') m') + int d' \<le> DaysInYear (int y')" by simp
  have y: "y = y'"
  proof (rule ccontr)
    assume "y \<noteq> y'"
    then consider "int y < int y'" | "int y' < int y" by linarith
    then show False
    proof cases
      case 1
      from DayFromYear_later [OF 1] ia eq vb(3) show False by linarith
    next
      case 2
      from DayFromYear_later [OF 2] ib eq va(3) show False by linarith
    qed
  qed
  with eq have eq2: "month_start (int y') m + d = month_start (int y') m' + d'" by simp
  have m: "m = m'"
  proof (rule ccontr)
    assume "m \<noteq> m'"
    then consider "m < m'" | "m' < m" by linarith
    then show False
    proof cases
      case 1
      from month_start_later [OF va(1) 1 vb(2), of "int y'"] va(4) eq2 vb(3) y show False by simp
    next
      case 2
      from month_start_later [OF vb(1) 2 va(2), of "int y'"] vb(4) eq2 va(3) show False by simp
    qed
  qed
  with eq2 have "d = d'" by simp
  with y m a b show ?thesis by simp
qed


lemma digit_less: "is_digit c \<Longrightarrow> digit c < 10"
  unfolding is_digit_def digit_def by linarith

lemma digit_inj: "is_digit c \<Longrightarrow> is_digit c' \<Longrightarrow> digit c = digit c' \<Longrightarrow> c = c'"
proof -
  assume "is_digit c" "is_digit c'" "digit c = digit c'"
  then have "(of_char c :: nat) = of_char c'" unfolding is_digit_def digit_def by linarith
  then show ?thesis by simp
qed

lemma iso_fields_Some:
  assumes "iso_fields s = Some (y, m, d)"
  obtains y1 y2 y3 y4 m1 m2 d1 d2 where
    "s = [y1, y2, y3, y4, CHR ''-'', m1, m2, CHR ''-'', d1, d2]"
    "is_digit y1" "is_digit y2" "is_digit y3" "is_digit y4"
    "is_digit m1" "is_digit m2" "is_digit d1" "is_digit d2"
    "y = 1000 * digit y1 + 100 * digit y2 + 10 * digit y3 + digit y4"
    "m = 10 * digit m1 + digit m2" "d = 10 * digit d1 + digit d2"
  using assms
  by (cases s rule: iso_fields.cases) (simp_all split: if_splits)


lemma two_digits_inj:
  fixes a b a' b' :: nat
  assumes "b < 10" "b' < 10" "10 * a + b = 10 * a' + b'"
  shows "a = a' \<and> b = b'"
proof -
  from assms have "a = a'" by linarith
  with assms show ?thesis by simp
qed

lemma four_digits_inj:
  fixes a b c d a' b' c' d' :: nat
  assumes "b < 10" "c < 10" "d < 10" "b' < 10" "c' < 10" "d' < 10"
    "1000 * a + 100 * b + 10 * c + d = 1000 * a' + 100 * b' + 10 * c' + d'"
  shows "a = a' \<and> b = b' \<and> c = c' \<and> d = d'"
proof -
  from assms have a: "a = a'" by linarith
  with assms have "100 * b + 10 * c + d = 100 * b' + 10 * c' + d'" by simp
  with assms have b: "b = b'" by linarith
  with assms a have "10 * c + d = 10 * c' + d'" by simp
  with assms have "c = c'" by linarith
  with assms a b show ?thesis by simp
qed

lemma iso_fields_inj:
  assumes "iso_fields s = Some t" "iso_fields s' = Some t"
  shows "s = s'"
proof -
  obtain y m d where t: "t = (y, m, d)" by (cases t)
  from assms(1) [unfolded t] obtain y1 y2 y3 y4 m1 m2 d1 d2 where
    s: "s = [y1, y2, y3, y4, CHR ''-'', m1, m2, CHR ''-'', d1, d2]"
    and g: "is_digit y1" "is_digit y2" "is_digit y3" "is_digit y4"
      "is_digit m1" "is_digit m2" "is_digit d1" "is_digit d2"
    and v: "y = 1000 * digit y1 + 100 * digit y2 + 10 * digit y3 + digit y4"
      "m = 10 * digit m1 + digit m2" "d = 10 * digit d1 + digit d2"
    by (rule iso_fields_Some)
  from assms(2) [unfolded t] obtain z1 z2 z3 z4 n1 n2 e1 e2 where
    s': "s' = [z1, z2, z3, z4, CHR ''-'', n1, n2, CHR ''-'', e1, e2]"
    and g': "is_digit z1" "is_digit z2" "is_digit z3" "is_digit z4"
      "is_digit n1" "is_digit n2" "is_digit e1" "is_digit e2"
    and v': "y = 1000 * digit z1 + 100 * digit z2 + 10 * digit z3 + digit z4"
      "m = 10 * digit n1 + digit n2" "d = 10 * digit e1 + digit e2"
    by (rule iso_fields_Some)
  note l = g [THEN digit_less] g' [THEN digit_less]
  from v(1) v'(1) l
  have "digit y1 = digit z1 \<and> digit y2 = digit z2 \<and> digit y3 = digit z3 \<and> digit y4 = digit z4"
    by (intro four_digits_inj) simp_all
  moreover from v(2) v'(2) l have "digit m1 = digit n1 \<and> digit m2 = digit n2"
    by (intro two_digits_inj) simp_all
  moreover from v(3) v'(3) l have "digit d1 = digit e1 \<and> digit d2 = digit e2"
    by (intro two_digits_inj) simp_all
  ultimately have "y1 = z1" "y2 = z2" "y3 = z3" "y4 = z4" "m1 = n1" "m2 = n2" "d1 = e1" "d2 = e2"
    using g g' by (blast intro: digit_inj)+
  with s s' show ?thesis by simp
qed

lemma Date_time_Fin:
  "Date_time s = Fin t \<Longrightarrow>
   \<exists>ymd. iso_fields s = Some ymd \<and> calendar_day ymd \<and> t = of_int (86400000 * day_number ymd)"
  by (auto simp: Date_time_def split: option.splits if_splits)

lemma Date_time_cases: "Date_time s = NaN \<or> (\<exists>t. Date_time s = Fin t)"
  by (auto simp: Date_time_def split: option.splits)

lemma Date_time_inj:
  assumes "Date_time s = Fin t" "Date_time s' = Fin t"
  shows "s = s'"
proof -
  from assms(1) obtain a where a: "iso_fields s = Some a" "calendar_day a"
    "t = of_int (86400000 * day_number a)" by (blast dest: Date_time_Fin)
  from assms(2) obtain b where b: "iso_fields s' = Some b" "calendar_day b"
    "t = of_int (86400000 * day_number b)" by (blast dest: Date_time_Fin)
  from a(3) b(3) have "day_number a = day_number b" by simp
  with a(2) b(2) have "a = b" by (rule day_number_inj)
  with a(1) b(1) show ?thesis by (simp add: iso_fields_inj)
qed

section \<open>Properties of the sort\<close>

lemma js_lt_trans: "js_lt a b \<Longrightarrow> js_lt b c \<Longrightarrow> js_lt a c"
  by (cases a; cases b; cases c) auto


lemma js_lt_irrefl: "\<not> js_lt a a"
  by (cases a) auto

lemma newest_first_positive: "js_gt (newest_first x y) (Fin 0) = newer y x"
  using Date_time_cases [of "date x"] Date_time_cases [of "date y"]
  by (auto simp: newest_first_def newer_def js_gt_def js_sub_def)

lemma newer_trans: "newer a b \<Longrightarrow> newer b c \<Longrightarrow> newer a c"
  unfolding newer_def by (rule js_lt_trans)


lemma newer_total:
  assumes "valid_date (date a)" "valid_date (date b)" "date a \<noteq> date b"
  shows "newer a b \<or> newer b a"
proof -
  from assms(1) Date_time_cases [of "date a"] obtain s where s: "Date_time (date a) = Fin s"
    by (auto simp: valid_date_def)
  from assms(2) Date_time_cases [of "date b"] obtain t where t: "Date_time (date b) = Fin t"
    by (auto simp: valid_date_def)
  from s t assms(3) have "s \<noteq> t" by (auto dest: Date_time_inj)
  with s t show ?thesis by (auto simp: newer_def)
qed

lemma set_insert_by: "set (insert_by cmp x ys) = insert x (set ys)"
  by (induction ys) auto

lemma mset_insert_by: "mset (insert_by cmp x ys) = add_mset x (mset ys)"
  by (induction ys) auto

lemma Array_sort_Cons: "Array_sort cmp (x # xs) = insert_by cmp x (Array_sort cmp xs)"
  by (simp add: Array_sort_def)

lemma mset_Array_sort: "mset (Array_sort cmp xs) = mset xs"
  by (induction xs) (simp_all add: Array_sort_Cons mset_insert_by, simp add: Array_sort_def)

lemma set_Array_sort: "set (Array_sort cmp xs) = set xs"
  using mset_Array_sort [of cmp xs] by (metis set_mset_mset)

lemma strictly_descending_insert:
  assumes "strictly_descending ys" and "\<forall>y\<in>set ys. newer x y \<or> newer y x"
  shows "strictly_descending (insert_by newest_first x ys)"
  using assms
proof (induction ys)
  case Nil
  then show ?case by (simp add: strictly_descending_def)
next
  case (Cons y ys)
  then have tail: "strictly_descending ys" and above: "\<forall>z\<in>set ys. newer y z"
    by (simp_all add: strictly_descending_def)
  show ?case
  proof (cases "newer y x")
    case True
    from Cons.IH tail Cons.prems(2) have "strictly_descending (insert_by newest_first x ys)"
      by simp
    with True above show ?thesis
      by (simp add: newest_first_positive strictly_descending_def set_insert_by)
  next
    case False
    with Cons.prems(2) have xy: "newer x y" by simp
    with above have "\<forall>z\<in>set ys. newer x z" by (blast intro: newer_trans)
    with xy False tail above show ?thesis
      by (simp add: newest_first_positive strictly_descending_def)
  qed
qed

lemma Array_sort_descending:
  assumes "valid_dates xs" and "distinct (map date xs)"
  shows "strictly_descending (Array_sort newest_first xs)"
  using assms
proof (induction xs)
  case Nil
  then show ?case by (simp add: Array_sort_def strictly_descending_def)
next
  case (Cons x xs)
  then have "strictly_descending (Array_sort newest_first xs)"
    by (simp add: valid_dates_def)
  moreover have "\<forall>y\<in>set (Array_sort newest_first xs). newer x y \<or> newer y x"
  proof
    fix y assume "y \<in> set (Array_sort newest_first xs)"
    then have y: "y \<in> set xs" by (simp add: set_Array_sort)
    with Cons.prems have "valid_date (date x)" "valid_date (date y)" "date x \<noteq> date y"
      by (auto simp: valid_dates_def list_all_iff)
    then show "newer x y \<or> newer y x" by (rule newer_total)
  qed
  ultimately show ?case by (simp add: Array_sort_Cons strictly_descending_insert)
qed

lemma strictly_descending_distinct: "strictly_descending es \<Longrightarrow> distinct (map date es)"
proof (induction es)
  case Nil
  show ?case by simp
next
  case (Cons e es)
  then have "\<forall>z\<in>set es. newer e z" "strictly_descending es"
    by (simp_all add: strictly_descending_def)
  moreover have "\<not> newer e z" if "date z = date e" for z
    using that js_lt_irrefl by (simp add: newer_def)
  ultimately show ?case using Cons.IH by auto
qed







section \<open>Properties of the store\<close>

lemma placed_Nil: "placed entry [] = [entry]"
  by (simp add: placed_def)

lemma placed_Cons:
  "placed entry (x # xs) = (if date x = date entry then spread x entry # xs else x # placed entry xs)"
  by (simp add: placed_def split: option.splits)

lemma date_spread: "date (spread old new) = date new"
  by (simp add: spread_def)




lemma dates_placed:
  "set (map date (placed entry es)) = insert (date entry) (set (map date es))"
  by (induction es) (auto simp: placed_Nil placed_Cons date_spread)

lemma distinct_placed: "distinct (map date es) \<Longrightarrow> distinct (map date (placed entry es))"
proof (induction es)
  case Nil
  show ?case by (simp add: placed_Nil)
next
  case (Cons x xs)
  show ?case
  proof (cases "date x = date entry")
    case True
    with Cons.prems show ?thesis by (simp add: placed_Cons date_spread)
  next
    case False
    from Cons have "distinct (map date (placed entry xs))" by simp
    moreover from Cons.prems False have "date x \<notin> set (map date (placed entry xs))"
      unfolding dates_placed by auto
    ultimately show ?thesis using False by (simp add: placed_Cons)
  qed
qed

lemma valid_placed:
  "valid_dates es \<Longrightarrow> valid_date (date entry) \<Longrightarrow> valid_dates (placed entry es)"
  by (induction es) (simp_all add: placed_Nil placed_Cons valid_dates_def date_spread)








lemma saveEntry_document:
  assumes "getAll st = JObject d" and "entries d = Sequence es"
  shows "saveEntry writable entry st =
    Inr (saveAll writable (JObject (d\<lparr>entries := Sequence (Array_sort newest_first (placed entry es))\<rparr>)) st)"
  using assms by (simp add: saveEntry_def placed_def Let_def)

lemma deleteEntry_document:
  assumes "getAll st = JObject d" and "entries d = Sequence es"
  shows "deleteEntry writable k st =
    Inr (saveAll writable (JObject (d\<lparr>entries := Sequence (filter (\<lambda>entry. date entry \<noteq> k) es)\<rparr>)) st)"
  using assms by (simp add: deleteEntry_def Let_def)

lemma getAll_saveAll:
  "getAll (fst (saveAll writable data st)) = (if writable then data else getAll st)"
  by (simp add: saveAll_def getAll_def JSON_stringify_def)

lemma getEntries_document:
  "getAll st = JObject d \<Longrightarrow> entries d = Sequence es \<Longrightarrow> getEntries st = Sequence es"
  by (simp add: getEntries_def)

lemma strictly_descending_head:
  "strictly_descending es \<Longrightarrow> \<forall>e\<in>set (tl es). newer (hd es) e"
  by (cases es) (simp_all add: strictly_descending_def)

text \<open>
  \<open>saveEntry\<close> sorts: from entries with valid, pairwise different dates, in any order, a
  successful save leaves them strictly descending.
\<close>

lemma saveEntry_sorts:
  assumes "getAll st = JObject d" and "entries d = Sequence es"
    and "valid_dates es" and "distinct (map date es)" and "valid_date (date entry)"
  shows "\<exists>st' es'. saveEntry True entry st = Inr (st', True) \<and> getEntries st' = Sequence es'
           \<and> strictly_descending es' \<and> distinct (map date es') \<and> valid_dates es'"
proof -
  let ?es = "Array_sort newest_first (placed entry es)"
  let ?d = "d\<lparr>entries := Sequence ?es\<rparr>"
  from assms have v: "valid_dates (placed entry es)" and n: "distinct (map date (placed entry es))"
    by (simp_all add: valid_placed distinct_placed)
  then have s: "strictly_descending ?es" by (rule Array_sort_descending)
  from v have "valid_dates ?es" by (simp add: valid_dates_def list_all_iff set_Array_sort)
  moreover have "saveEntry True entry st = Inr (Some (JSON_stringify Compact (JObject ?d)), True)"
    using assms(1,2) by (simp add: saveEntry_document saveAll_def)
  moreover have "getEntries (Some (JSON_stringify Compact (JObject ?d))) = Sequence ?es"
    by (simp add: getEntries_def getAll_def JSON_stringify_def)
  ultimately show ?thesis using s strictly_descending_distinct [OF s] by blast
qed

text \<open>
  Claim C4, as amended: on a well-formed document (an \<open>entries\<close> array whose dates are
  valid ISO dates in strictly descending order) \<open>saveEntry\<close> of an entry whose date is a
  valid ISO date, and \<open>deleteEntry\<close> of any date, return normally and leave the stored
  entries strictly descending by date, with no date twice, every date valid, and the first
  entry newer than all others. This holds whether or not the write to storage goes
  through. \<open>saveEntry\<close> re-sorts; \<open>deleteEntry\<close> only filters, which keeps the order.
\<close>

theorem sort_invariant_preserved:
  assumes "getAll st = JObject d" and "entries d = Sequence es"
    and "valid_dates es" and "strictly_descending es" and "valid_date (date entry)"
  shows "(\<exists>st' ok es'. saveEntry writable entry st = Inr (st', ok)
            \<and> getEntries st' = Sequence es'
            \<and> strictly_descending es' \<and> distinct (map date es') \<and> valid_dates es'
            \<and> (\<forall>e\<in>set (tl es'). newer (hd es') e))
       \<and> (\<exists>st' ok es'. deleteEntry writable k st = Inr (st', ok)
            \<and> getEntries st' = Sequence es'
            \<and> strictly_descending es' \<and> distinct (map date es') \<and> valid_dates es'
            \<and> (\<forall>e\<in>set (tl es'). newer (hd es') e))"
proof -
  note before = getEntries_document [OF assms(1,2)]
  from assms(4) have dist: "distinct (map date es)" by (rule strictly_descending_distinct)
  have good: "strictly_descending es' \<and> distinct (map date es') \<and> valid_dates es'
      \<and> (\<forall>e\<in>set (tl es'). newer (hd es') e)"
    if "strictly_descending es'" "valid_dates es'" for es'
    using that strictly_descending_distinct strictly_descending_head by blast
  have save: "\<exists>st' ok es'. saveEntry writable entry st = Inr (st', ok)
            \<and> getEntries st' = Sequence es'
            \<and> strictly_descending es' \<and> distinct (map date es') \<and> valid_dates es'
            \<and> (\<forall>e\<in>set (tl es'). newer (hd es') e)"
  proof (cases writable)
    case True
    from saveEntry_sorts [OF assms(1,2,3) dist assms(5)] obtain st' es' where
      a: "saveEntry True entry st = Inr (st', True)" "getEntries st' = Sequence es'"
        "strictly_descending es'" "valid_dates es'" by blast
    from a(1) True have "saveEntry writable entry st = Inr (st', True)" by simp
    with a(2) good [OF a(3,4)] show ?thesis by blast
  next
    case False
    with assms(1,2) have "saveEntry writable entry st = Inr (st, False)"
      by (simp add: saveEntry_document saveAll_def)
    with before good [OF assms(4,3)] show ?thesis by blast
  qed
  have delete: "\<exists>st' ok es'. deleteEntry writable k st = Inr (st', ok)
            \<and> getEntries st' = Sequence es'
            \<and> strictly_descending es' \<and> distinct (map date es') \<and> valid_dates es'
            \<and> (\<forall>e\<in>set (tl es'). newer (hd es') e)"
  proof (cases writable)
    case True
    let ?es = "filter (\<lambda>entry. date entry \<noteq> k) es"
    let ?d = "d\<lparr>entries := Sequence ?es\<rparr>"
    from assms(4) have "strictly_descending ?es"
      by (simp add: strictly_descending_def sorted_wrt_filter)
    moreover from assms(3) have "valid_dates ?es"
      by (simp add: valid_dates_def list_all_iff)
    moreover from True assms(1,2)
    have "deleteEntry writable k st = Inr (Some (JSON_stringify Compact (JObject ?d)), True)"
      by (simp add: deleteEntry_document saveAll_def)
    moreover have "getEntries (Some (JSON_stringify Compact (JObject ?d))) = Sequence ?es"
      by (simp add: getEntries_def getAll_def JSON_stringify_def)
    ultimately show ?thesis using good by blast
  next
    case False
    with assms(1,2) have "deleteEntry writable k st = Inr (st, False)"
      by (simp add: deleteEntry_document saveAll_def)
    with before good [OF assms(4,3)] show ?thesis by blast
  qed
  from save delete show ?thesis by (rule conjI)
qed


lemma getAll_stored: "getAll (stored d) = JObject d"
  by (simp add: stored_def getAll_def JSON_stringify_def)

lemma entries_sample: "entries (sample_document es) = Sequence es"
  by (simp add: sample_document_def)

text \<open>
  Three sorted days: saving an entry for the second day and deleting the second day.
\<close>

theorem sort_invariant_preserved_witness:
  "valid_dates [day3, day2, day1] \<and> strictly_descending [day3, day2, day1]
   \<and> valid_date (date ((blank ''2024-01-02'')\<lparr>sleep := Some 7\<rparr>))
   \<and> (\<exists>st' ok es'. saveEntry True ((blank ''2024-01-02'')\<lparr>sleep := Some 7\<rparr>)
          (stored (sample_document [day3, day2, day1])) = Inr (st', ok)
        \<and> getEntries st' = Sequence es' \<and> strictly_descending es' \<and> distinct (map date es'))
   \<and> (\<exists>st' ok es'. deleteEntry True ''2024-01-02''
          (stored (sample_document [day3, day2, day1])) = Inr (st', ok)
        \<and> getEntries st' = Sequence es' \<and> strictly_descending es' \<and> distinct (map date es'))"
proof -
  have v: "valid_dates [day3, day2, day1]" by code_simp
  have s: "strictly_descending [day3, day2, day1]" by code_simp
  have e: "valid_date (date ((blank ''2024-01-02'')\<lparr>sleep := Some 7\<rparr>))" by code_simp
  from sort_invariant_preserved [OF getAll_stored entries_sample v s e, of True "''2024-01-02''"] v s e
  show ?thesis by blast
qed

text \<open>
  Claim C4 as stated is about every write. \<open>saveEntry\<close> does not look at the date it is
  given: saving an entry dated \<open>bad\<close> on three sorted days pushes it, the comparator
  answers \<open>NaN\<close> wherever it meets the new entry, which the sort takes as equal, and the
  entry is written where it was pushed. The stored entries are no longer strictly
  descending, as the invalid date is not older than its neighbour; this is so wherever a
  sort leaves the entry.
\<close>

theorem invalid_date_counterexample:
  "valid_dates [day3, day2, day1] \<and> strictly_descending [day3, day2, day1]
   \<and> saveEntry True (blank ''bad'') (stored (sample_document [day3, day2, day1]))
       = Inr (stored (sample_document [day3, day2, day1, blank ''bad'']), True)
   \<and> \<not> strictly_descending [day3, day2, day1, blank ''bad'']"
proof -
  have v: "valid_dates [day3, day2, day1]" by code_simp
  have s: "strictly_descending [day3, day2, day1]" by code_simp
  have a: "Array_sort newest_first (placed (blank ''bad'') [day3, day2, day1])
      = [day3, day2, day1, blank ''bad'']" by code_simp
  have n: "\<not> strictly_descending [day3, day2, day1, blank ''bad'']" by code_simp
  have d: "(sample_document es)\<lparr>entries := Sequence es'\<rparr> = sample_document es'" for es es'
    by (simp add: sample_document_def)
  have "saveEntry True (blank ''bad'') (stored (sample_document [day3, day2, day1]))
       = Inr (stored (sample_document [day3, day2, day1, blank ''bad'']), True)"
    unfolding saveEntry_document [OF getAll_stored entries_sample] a d
    by (simp add: saveAll_def stored_def)
  with v s n show ?thesis by simp
qed






subsection \<open>Range filter\<close>




subsection \<open>Import and export\<close>

text \<open>
  Claim C6 as stated has every valid payload replace the stored document. When the write
  to storage fails, \<open>saveAll\<close> returns \<open>false\<close>, \<open>importJSON\<close> does not look at that result
  and answers \<open>success: true\<close>, and the stored document is the old one.
\<close>

theorem importJSON_counterexample:
  "has_entries_sequence (Text Compact (JObject (sample_document [day1])))
   \<and> importJSON False (Text Compact (JObject (sample_document [day1]))) sample_store
       = (sample_store, \<lparr>success = True, message = Literal ''Data imported successfully''\<rparr>)
   \<and> getAll sample_store \<noteq> JObject (sample_document [day1])"
  by (simp add: importJSON_def saveAll_def sample_store_def getAll_stored entries_sample
      sample_document_def)

text \<open>
  Claim C6, as amended: a payload that fails to parse, or parses to anything but an
  object whose \<open>entries\<close> is an array, is rejected with \<open>success: false\<close> and the message
  of the error, nothing is thrown, and the storage is left exactly as it was, whatever the
  state of the storage. A payload with an \<open>entries\<close> array is answered with
  \<open>success: true\<close>, and when the write to storage succeeds the stored document is the
  parsed payload.
\<close>

theorem importJSON_validates:
  "(\<not> has_entries_sequence payload \<longrightarrow>
      fst (importJSON writable payload st) = st
      \<and> success (snd (importJSON writable payload st)) = False
      \<and> (\<exists>e. snd (importJSON writable payload st) = failed e))
   \<and> (has_entries_sequence payload \<longrightarrow>
      (\<exists>l data. payload = Text l data
         \<and> importJSON True payload st =
             (Some (JSON_stringify Compact data),
              \<lparr>success = True, message = Literal ''Data imported successfully''\<rparr>)
         \<and> getAll (fst (importJSON True payload st)) = data))"
proof -
  have rejected: "\<exists>e. importJSON writable payload st = (st, failed e)"
    if "\<not> has_entries_sequence payload"
  proof (cases payload)
    case Malformed
    then show ?thesis by (auto simp: importJSON_def)
  next
    case (Text l data)
    show ?thesis
    proof (cases data)
      case (JObject d)
      with Text that have "\<not> isArray (entries d)" by simp
      with Text JObject show ?thesis
        by (cases "entries d") (auto simp: importJSON_def)
    qed (auto simp: Text importJSON_def)
  qed
  have reject: "fst (importJSON writable payload st) = st
      \<and> success (snd (importJSON writable payload st)) = False
      \<and> (\<exists>e. snd (importJSON writable payload st) = failed e)"
    if "\<not> has_entries_sequence payload"
  proof -
    from rejected [OF that] obtain e where "importJSON writable payload st = (st, failed e)" ..
    then show ?thesis by (auto simp: failed_def)
  qed
  have accept: "\<exists>l data. payload = Text l data
         \<and> importJSON True payload st =
             (Some (JSON_stringify Compact data),
              \<lparr>success = True, message = Literal ''Data imported successfully''\<rparr>)
         \<and> getAll (fst (importJSON True payload st)) = data"
    if "has_entries_sequence payload"
  proof -
    from that obtain l d where t: "payload = Text l (JObject d)" and a: "isArray (entries d)"
      by (cases payload rule: has_entries_sequence.cases) auto
    from a obtain es where "entries d = Sequence es" by (cases "entries d") auto
    with t show ?thesis
      by (simp add: importJSON_def saveAll_def getAll_def JSON_stringify_def)
  qed
  from reject accept show ?thesis by blast
qed

text \<open>
  A top-level array is rejected; a document with one entry is stored.
\<close>

theorem importJSON_validates_witness:
  "\<not> has_entries_sequence (Text Compact JArray)
   \<and> fst (importJSON True (Text Compact JArray) sample_store) = sample_store
   \<and> success (snd (importJSON True (Text Compact JArray) sample_store)) = False
   \<and> has_entries_sequence (Text (Indented 2) (JObject (sample_document [day1])))
   \<and> getAll (fst (importJSON True (Text (Indented 2) (JObject (sample_document [day1]))) sample_store))
       = JObject (sample_document [day1])"
proof -
  have n: "\<not> has_entries_sequence (Text Compact JArray)" by simp
  have y: "has_entries_sequence (Text (Indented 2) (JObject (sample_document [day1])))"
    by (simp add: entries_sample)
  from importJSON_validates [of "Text Compact JArray" True sample_store]
       importJSON_validates [of "Text (Indented 2) (JObject (sample_document [day1]))" True sample_store]
       n y
  show ?thesis by auto
qed

text \<open>
  Claim C7: importing the text that \<open>exportJSON\<close> returns leaves the stored document, as
  \<open>getAll\<close> reads it, unchanged, for every content of the storage and whether or not the
  write goes through; when the stored document has an \<open>entries\<close> array the import reports
  success. The layout of the exported text plays no part. That parsing the text of a value
  gives the value back is the contract of \<open>JSON.parse\<close> and \<open>JSON.stringify\<close> taken into
  the model of texts.
\<close>

theorem export_import_round_trip:
  "getAll (fst (importJSON writable (exportJSON st) st)) = getAll st
   \<and> (has_entries_sequence (exportJSON st) \<longrightarrow>
        success (snd (importJSON writable (exportJSON st) st)))"
proof -
  have "getAll (fst (importJSON writable (exportJSON st) st)) = getAll st"
  proof (cases "getAll st")
    case (JObject d)
    then show ?thesis
      by (cases "entries d")
         (auto simp: importJSON_def exportJSON_def saveAll_def getAll_def JSON_stringify_def)
  qed (auto simp: importJSON_def exportJSON_def JSON_stringify_def)
  moreover have "success (snd (importJSON writable (exportJSON st) st))"
    if "has_entries_sequence (exportJSON st)"
  proof -
    from that obtain d es where "getAll st = JObject d" "entries d = Sequence es"
      by (cases "getAll st"; cases "entries (case getAll st of JObject d \<Rightarrow> d)")
         (auto simp: exportJSON_def JSON_stringify_def)
    then show ?thesis
      by (simp add: importJSON_def exportJSON_def JSON_stringify_def)
  qed
  ultimately show ?thesis by blast
qed

text \<open>
  The round trip on the sample store.
\<close>

theorem export_import_round_trip_witness:
  "has_entries_sequence (exportJSON sample_store)
   \<and> getAll (fst (importJSON True (exportJSON sample_store) sample_store)) = getAll sample_store
   \<and> success (snd (importJSON True (exportJSON sample_store) sample_store))"
proof -
  have h: "has_entries_sequence (exportJSON sample_store)"
    by (simp add: exportJSON_def JSON_stringify_def sample_store_def getAll_stored entries_sample)
  from export_import_round_trip [of True sample_store] h show ?thesis by blast
qed

section \<open>Properties of the health flags\<close>

lemma below_threshold: "js_lt (to_number m) (Fin t) = (\<exists>v. m = Some v \<and> v < t)"
  by (cases m) simp_all

lemma above_threshold: "js_gt (to_number m) (Fin t) = (\<exists>v. m = Some v \<and> t < v)"
  by (cases m) (simp_all add: js_gt_def)

lemma or_zero_below: "js_lt (or_zero m) (Fin 6) = (\<forall>v. m = Some v \<longrightarrow> v < 6)"
  by (cases m) simp_all

text \<open>
  Claim C8 as stated emits the chronic flag when the three most recent entries all have
  sleep below 6, as one of exactly five rules. The look-back reads \<open>e.sleep || 0\<close>, so
  three entries without any sleep value raise the chronic flag, although none of them has
  a sleep below 6 and the single-day rule is silent.
\<close>

theorem missing_sleep_counterexample:
  "detectHealthFlags [blank ''2024-01-03'', blank ''2024-01-02'', blank ''2024-01-01''] no_goals
     = [chronic_flag]
   \<and> sleep (blank ''2024-01-03'') = None \<and> sleep (blank ''2024-01-02'') = None
   \<and> sleep (blank ''2024-01-01'') = None"
  by (simp add: detectHealthFlags_def push_if_def blank_def js_gt_def)

lemma push_if_append: "push_if c x fs = fs @ (if c then [x] else [])"
  by (simp add: push_if_def)

lemma recent_sleep_low:
  "list_all (\<lambda>s. js_lt s (Fin 6)) (map (\<lambda>e. or_zero (sleep e)) es)
     = (\<forall>e\<in>set es. \<forall>v. sleep e = Some v \<longrightarrow> v < 6)"
  by (simp add: list_all_iff or_zero_below)

lemma detectHealthFlags_Cons:
  "detectHealthFlags (latest # rest) g =
     push_if (3 \<le> length (latest # rest)
              \<and> (\<forall>e\<in>set (take 3 (latest # rest)). \<forall>v. sleep e = Some v \<longrightarrow> v < 6)) chronic_flag
       (push_if (\<exists>v. steps latest = Some v \<and> v < 2000) steps_flag
         (push_if (\<exists>v. water latest = Some v \<and> v < 3) water_flag
           (push_if (\<exists>v. heartRate latest = Some v \<and> 100 < v) heartRate_flag
             (push_if (\<exists>v. sleep latest = Some v \<and> v < 6) sleep_flag []))))"
proof (cases "3 \<le> length (latest # rest)")
  case True
  then show ?thesis
    unfolding detectHealthFlags_def Let_def list.case below_threshold above_threshold
      recent_sleep_low
    by (simp only: if_True simp_thms)
next
  case False
  then show ?thesis
    unfolding detectHealthFlags_def Let_def list.case below_threshold above_threshold
    by (simp only: if_False simp_thms push_if_def)
qed

text \<open>
  Claim C8, as amended: on a non-empty list the flags are, in this order, the sleep danger
  flag when the latest entry has sleep below 6, the heart-rate warning when it has a heart
  rate above 100, the water warning when it has water below 3, the steps warning when it
  has steps below 2000, and last the chronic danger flag when there are at least 3 entries
  and each of the three most recent has sleep below 6 or no sleep value. A rule on a
  missing field of the latest entry does not fire. For the latest entry
  \<open>{sleep: 5, heartRate: 60, water: 4, steps: 5000}\<close> followed by two entries with sleep
  below 6 the flags are the sleep flag and the chronic flag.
\<close>

theorem detectHealthFlags_rules:
  "detectHealthFlags [] g = []
   \<and> detectHealthFlags (latest # rest) g =
       (if \<exists>v. sleep latest = Some v \<and> v < 6 then [sleep_flag] else [])
       @ (if \<exists>v. heartRate latest = Some v \<and> 100 < v then [heartRate_flag] else [])
       @ (if \<exists>v. water latest = Some v \<and> v < 3 then [water_flag] else [])
       @ (if \<exists>v. steps latest = Some v \<and> v < 2000 then [steps_flag] else [])
       @ (if 3 \<le> length (latest # rest)
             \<and> (\<forall>e\<in>set (take 3 (latest # rest)). \<forall>v. sleep e = Some v \<longrightarrow> v < 6)
          then [chronic_flag] else [])
   \<and> (sleep latest = Some 5 \<and> heartRate latest = Some 60 \<and> water latest = Some 4
        \<and> steps latest = Some 5000
        \<and> sleep second = Some a \<and> a < 6 \<and> sleep third = Some b \<and> b < 6
        \<longrightarrow> detectHealthFlags (latest # second # third # older) g = [sleep_flag, chronic_flag])"
proof -
  have none: "detectHealthFlags [] g = []"
    by (simp add: detectHealthFlags_def)
  have rules: "detectHealthFlags (latest # rest) g =
       (if \<exists>v. sleep latest = Some v \<and> v < 6 then [sleep_flag] else [])
       @ (if \<exists>v. heartRate latest = Some v \<and> 100 < v then [heartRate_flag] else [])
       @ (if \<exists>v. water latest = Some v \<and> v < 3 then [water_flag] else [])
       @ (if \<exists>v. steps latest = Some v \<and> v < 2000 then [steps_flag] else [])
       @ (if 3 \<le> length (latest # rest)
             \<and> (\<forall>e\<in>set (take 3 (latest # rest)). \<forall>v. sleep e = Some v \<longrightarrow> v < 6)
          then [chronic_flag] else [])" for latest rest
    unfolding detectHealthFlags_Cons push_if_append by (simp only: append_Nil append_assoc)
  have example: "detectHealthFlags (latest # second # third # older) g = [sleep_flag, chronic_flag]"
    if "sleep latest = Some 5" "heartRate latest = Some 60" "water latest = Some 4"
      "steps latest = Some 5000" "sleep second = Some a" "a < 6" "sleep third = Some b" "b < 6"
    unfolding rules using that by simp
  from example have "sleep latest = Some 5 \<and> heartRate latest = Some 60 \<and> water latest = Some 4
        \<and> steps latest = Some 5000
        \<and> sleep second = Some a \<and> a < 6 \<and> sleep third = Some b \<and> b < 6
        \<longrightarrow> detectHealthFlags (latest # second # third # older) g = [sleep_flag, chronic_flag]"
    by (intro impI) (elim conjE)
  with none rules [of latest rest] show ?thesis by (intro conjI)
qed

text \<open>
  The three sample days.
\<close>

theorem detectHealthFlags_rules_witness:
  "sleep day3 = Some 5 \<and> heartRate day3 = Some 60 \<and> water day3 = Some 4 \<and> steps day3 = Some 5000
   \<and> sleep day2 = Some 5 \<and> sleep day1 = Some 4
   \<and> detectHealthFlags [day3, day2, day1] full_goals = [sleep_flag, chronic_flag]"
proof -
  have h: "sleep day3 = Some 5 \<and> heartRate day3 = Some 60 \<and> water day3 = Some 4
      \<and> steps day3 = Some 5000 \<and> sleep day2 = Some 5 \<and> (5::rat) < 6
      \<and> sleep day1 = Some 4 \<and> (4::rat) < 6"
    by (simp add: day1_def day2_def day3_def blank_def)
  from detectHealthFlags_rules [of full_goals day3 "[]" day2 5 day1 4 "[]"] h
  show ?thesis by simp
qed

end
